theory Spec2Isabelle
  imports Main "HOL-Library.AList"
begin

section \<open>Washing timer: the time parser\<close>

text \<open>
  A shallow embedding of \<^verbatim>\<open>src/src/washing_timer.py\<close>. A Python \<^verbatim>\<open>str\<close> is modelled
  as a \<^typ>\<open>string\<close>; a \<^typ>\<open>char\<close> stands for the code point of the same number
  (U+0000 ... U+00FF), and \<^term>\<open>length\<close> counts code points as \<^verbatim>\<open>len\<close> does.
\<close>

subsection \<open>The library functions the parser calls\<close>

text \<open>
  \<^verbatim>\<open>\d\<close> in a \<^verbatim>\<open>str\<close> pattern matches the decimal digits (category Nd); below
  U+0100 these are \<^verbatim>\<open>0\<close> ... \<^verbatim>\<open>9\<close> only.
\<close>

definition is_digit :: "char \<Rightarrow> bool" where
  "is_digit c = (48 \<le> (of_char c :: nat) \<and> (of_char c :: nat) \<le> 57)"

definition digit_val :: "char \<Rightarrow> nat" where
  "digit_val c = of_char c - 48"

text \<open>
  \<^verbatim>\<open>re.match(r'^\d+$', s)\<close>: one or more digits from the start, up to the end of the
  string; without \<^verbatim>\<open>re.MULTILINE\<close>, \<^verbatim>\<open>$\<close> matches at the end of the string and also
  just before a newline that is the last character of the string.
\<close>

definition re_match_digits :: "string \<Rightarrow> bool" where
  "re_match_digits s =
     (let ds = takeWhile is_digit s; rest = dropWhile is_digit s
      in ds \<noteq> [] \<and> (rest = [] \<or> rest = [CHR 0x0A]))"

text \<open>
  \<^verbatim>\<open>str.isspace\<close> on one character: the code points below U+0100 that Python treats as
  white space (\<^verbatim>\<open>\t \n \v \f \r\<close>, U+001C ... U+001F, space, U+0085, U+00A0).
\<close>

definition py_isspace :: "char \<Rightarrow> bool" where
  "py_isspace c =
     (let n = (of_char c :: nat)
      in (9 \<le> n \<and> n \<le> 13) \<or> (28 \<le> n \<and> n \<le> 32) \<or> n = 133 \<or> n = 160)"

definition py_strip :: "string \<Rightarrow> string" where
  "py_strip s = rev (dropWhile py_isspace (rev (dropWhile py_isspace s)))"

text \<open>The value of a string of decimal digits, most significant digit first.\<close>

definition digits_value :: "string \<Rightarrow> nat" where
  "digits_value ds = foldl (\<lambda>acc c. 10 * acc + digit_val c) 0 ds"

text \<open>
  The body of a decimal literal as \<^verbatim>\<open>int(s)\<close> accepts it: digits, with single
  underscores allowed between two digits.
\<close>

fun literal_body :: "string \<Rightarrow> bool" where
  "literal_body [] = False"
| "literal_body [c] = is_digit c"
| "literal_body (c # d # cs) =
     (is_digit c \<and>
      (if d = CHR ''_'' then cs \<noteq> [] \<and> literal_body cs else literal_body (d # cs)))"

text \<open>
  \<^verbatim>\<open>int(s)\<close> for a \<^verbatim>\<open>str\<close> in base 10: surrounding white space is stripped, one
  sign is allowed, the rest must be a literal body. \<^const>\<open>None\<close> is the \<^verbatim>\<open>ValueError\<close>.
\<close>

definition py_int :: "string \<Rightarrow> int option" where
  "py_int s =
     (let t = py_strip s;
          neg = (t \<noteq> [] \<and> hd t = CHR ''-'');
          body = (if t \<noteq> [] \<and> (hd t = CHR ''-'' \<or> hd t = CHR ''+'') then tl t else t)
      in if literal_body body
         then (let v = int (digits_value (filter is_digit body))
               in Some (if neg then - v else v))
         else None)"

subsection \<open>validate\_time\_format\<close>

text \<open>
  The function returns \<^verbatim>\<open>Optional[Tuple[int, int]]\<close>; every rejection is the same
  \<^verbatim>\<open>None\<close>. A \<^verbatim>\<open>ValueError\<close> of \<^verbatim>\<open>int\<close> is caught by the \<^verbatim>\<open>except\<close> clause and gives
  \<^verbatim>\<open>None\<close> as well.
\<close>

definition validate_time_format :: "string \<Rightarrow> (int \<times> int) option" where
  "validate_time_format time_str =
     (if \<not> re_match_digits time_str then None
      else if length time_str \<le> 3 then
        (case py_int time_str of
           None \<Rightarrow> None
         | Some minutes \<Rightarrow>
             if \<not> (1 \<le> minutes \<and> minutes \<le> 999) then None
             else Some (minutes div 60, minutes mod 60))
      else if length time_str = 4 then
        (case py_int (take 2 time_str) of
           None \<Rightarrow> None
         | Some hours \<Rightarrow>
             (case py_int (drop 2 time_str) of
                None \<Rightarrow> None
              | Some minutes \<Rightarrow>
                  if \<not> (0 \<le> hours \<and> hours \<le> 23) then None
                  else if \<not> (0 \<le> minutes \<and> minutes \<le> 59) then None
                  else if hours = 0 \<and> minutes = 0 then None
                  else Some (hours, minutes)))
      else None)"

section \<open>The timer registry\<close>

subsection \<open>Data\<close>

text \<open>
  \<^verbatim>\<open>MAX_TIMERS_PER_USER = 10\<close>.
\<close>

definition MAX_TIMERS_PER_USER :: nat where
  "MAX_TIMERS_PER_USER = 10"

text \<open>
  A \<^verbatim>\<open>datetime\<close> is an \<^typ>\<open>int\<close>, the number of microseconds since some epoch;
  \<^verbatim>\<open>datetime.now()\<close> is an argument of the function that calls it.

  The description of a timer is the text
  \<^verbatim>\<open>f"{time_display} (... {end_time_str})"\<close>, which \<^verbatim>\<open>handle_time\<close> renders from the
  hours, the minutes and the end time; the model keeps these three values in place of
  the rendered text.
\<close>

datatype description = Description (d_hours: int) (d_minutes: int) (d_end_time: int)

text \<open>
  The \<^verbatim>\<open>Job\<close> that \<^verbatim>\<open>job_queue.run_once\<close> returns: an object (its identity is
  \<open>job_id\<close>) that carries the \<^verbatim>\<open>user_id\<close> and the \<^verbatim>\<open>data\<close> dictionary given at
  scheduling time.
\<close>

record ptb_job =
  job_id :: nat
  job_user_id :: int
  job_delay :: int
  job_timer_id :: string
  job_description :: description

text \<open>
  One entry of a user's dictionary:
  \<^verbatim>\<open>{"description": ..., "end_time": ..., "job": ..., "created_at": ...}\<close>.
  The \<^verbatim>\<open>job\<close> parameter of \<^verbatim>\<open>add_timer\<close> has type \<^verbatim>\<open>Any\<close>; \<^const>\<open>None\<close> stands
  for a false value such as Python's \<^verbatim>\<open>None\<close>, \<^term>\<open>Some j\<close> for a \<^verbatim>\<open>Job\<close> object.
\<close>

record timer_info =
  description :: description
  end_time :: int
  job :: "ptb_job option"
  created_at :: int

text \<open>
  A Python \<^verbatim>\<open>dict\<close> keeps its keys in insertion order, and both the snapshot loop of
  \<^verbatim>\<open>cancel_timer\<close> and the stable sort of \<^verbatim>\<open>format_timer_list\<close> depend on that order:
  a user's timers are an association list with distinct keys, where
  \<^const>\<open>AList.update\<close> is \<^verbatim>\<open>d[k] = v\<close> (in place for a known key, at the end for a new
  one) and \<^const>\<open>AList.delete\<close> is \<^verbatim>\<open>del d[k]\<close>.
\<close>

type_synonym user_timers = "(string \<times> timer_info) list"

text \<open>The notification that \<^verbatim>\<open>timer_callback\<close> hands to \<^verbatim>\<open>context.bot.send_message\<close>.\<close>

record notification =
  chat_id :: int
  n_timer_id :: string
  n_description :: description
  remaining_count :: nat

text \<open>
  The process state: the global \<^verbatim>\<open>active_timers\<close>; the jobs of the job queue that are
  scheduled and have neither been dispatched nor removed; the jobs that the queue has
  dispatched and whose callback has not started yet; the counter that gives each new
  job its identity; and the calls of \<^verbatim>\<open>send_message\<close> made by \<^verbatim>\<open>timer_callback\<close> so
  far.
\<close>

record state =
  active_timers :: "int \<rightharpoonup> user_timers"
  job_queue :: "ptb_job list"
  dispatched :: "ptb_job list"
  next_job_id :: nat
  outbox :: "notification list"

definition init_state :: state where
  "init_state =
     \<lparr>active_timers = Map.empty, job_queue = [], dispatched = [], next_job_id = 0,
      outbox = []\<rparr>"

subsection \<open>The job queue\<close>

text \<open>
  The job queue is a library, not code of this repository. \<^verbatim>\<open>run_once\<close> creates a
  job and schedules it. \<^verbatim>\<open>Job.schedule_removal\<close> removes a scheduled job; for a job
  that is no longer scheduled it raises, which is the exception that \<^verbatim>\<open>remove_timer\<close>
  catches. When the delay of a run-once job has passed, the queue takes the job out of
  its store and starts a task for the callback; that task runs after the tasks that
  are already waiting on the event loop.
\<close>

datatype job_error = JobLookupError

definition run_once :: "int \<Rightarrow> int \<Rightarrow> string \<Rightarrow> description \<Rightarrow> state \<Rightarrow> ptb_job \<times> state" where
  "run_once total_seconds user_id timer_id descr s =
     (let j = \<lparr>job_id = next_job_id s, job_user_id = user_id, job_delay = total_seconds,
                job_timer_id = timer_id, job_description = descr\<rparr>
      in (j, s\<lparr>job_queue := job_queue s @ [j], next_job_id := Suc (next_job_id s)\<rparr>))"

definition schedule_removal :: "ptb_job \<Rightarrow> ptb_job list \<Rightarrow> job_error + ptb_job list" where
  "schedule_removal j q = (if j \<in> set q then Inr (removeAll j q) else Inl JobLookupError)"

subsection \<open>Registry operations\<close>

text \<open>
  \<^verbatim>\<open>active_timers.setdefault(user_id, {})\<close>: for a user without an entry it stores an
  empty dictionary and returns it.
\<close>

definition get_user_timers :: "int \<Rightarrow> state \<Rightarrow> user_timers \<times> state" where
  "get_user_timers user_id s =
     (case active_timers s user_id of
        None \<Rightarrow> ([], s\<lparr>active_timers := (active_timers s)(user_id \<mapsto> [])\<rparr>)
      | Some d \<Rightarrow> (d, s))"

text \<open>
  \<^verbatim>\<open>add_timer\<close> writes into the dictionary that \<^verbatim>\<open>get_user_timers\<close> returned, which is
  the one stored in \<^verbatim>\<open>active_timers\<close>. \<open>now\<close> is the \<^verbatim>\<open>datetime.now()\<close> of
  \<^verbatim>\<open>created_at\<close>.
\<close>

definition add_timer ::
  "int \<Rightarrow> string \<Rightarrow> description \<Rightarrow> int \<Rightarrow> ptb_job option \<Rightarrow> int \<Rightarrow> state \<Rightarrow> state" where
  "add_timer user_id timer_id descr end_t jb now s =
     (let (user_timers, s1) = get_user_timers user_id s;
          info = \<lparr>description = descr, end_time = end_t, job = jb, created_at = now\<rparr>
      in s1\<lparr>active_timers := (active_timers s1)(user_id \<mapsto> AList.update timer_id info user_timers)\<rparr>)"

text \<open>
  \<^verbatim>\<open>remove_timer\<close>: the exception of \<^verbatim>\<open>schedule_removal\<close> is caught and logged, and
  the function goes on.
\<close>

definition remove_timer :: "int \<Rightarrow> string \<Rightarrow> state \<Rightarrow> bool \<times> state" where
  "remove_timer user_id timer_id s =
     (let (user_timers, s1) = get_user_timers user_id s
      in case map_of user_timers timer_id of
           None \<Rightarrow> (False, s1)
         | Some info \<Rightarrow>
             (let s2 = (case job info of
                          None \<Rightarrow> s1
                        | Some j \<Rightarrow>
                            (case schedule_removal j (job_queue s1) of
                               Inl e \<Rightarrow> s1
                             | Inr q \<Rightarrow> s1\<lparr>job_queue := q\<rparr>));
                  user_timers' = AList.delete timer_id user_timers;
                  s3 = s2\<lparr>active_timers := (active_timers s2)(user_id \<mapsto> user_timers')\<rparr>;
                  s4 = (if user_timers' = []
                        then s3\<lparr>active_timers := (active_timers s3)(user_id := None)\<rparr>
                        else s3)
              in (True, s4)))"

definition get_timer_count :: "int \<Rightarrow> state \<Rightarrow> nat \<times> state" where
  "get_timer_count user_id s =
     (let (user_timers, s1) = get_user_timers user_id s in (length user_timers, s1))"

subsection \<open>format\_timer\_list\<close>

text \<open>
  \<^verbatim>\<open>xs[i:j]\<close> for Python integers: a negative index counts from the end, and both
  indices are clamped to the list.
\<close>

definition py_slice :: "'a list \<Rightarrow> int \<Rightarrow> int \<Rightarrow> 'a list" where
  "py_slice xs i j =
     (let n = int (length xs);
          lo = (if i < 0 then max (i + n) 0 else min i n);
          hi = (if j < 0 then max (j + n) 0 else min j n)
      in take (nat (hi - lo)) (drop (nat lo) xs))"

text \<open>
  The buttons of the keyboards, by label and callback data: create a timer
  (\<^verbatim>\<open>new_timer\<close>), cancel one timer (\<^verbatim>\<open>cancel_timer_<id>\<close>), back and forward
  (\<^verbatim>\<open>timers_page_<n>\<close>), cancel all (\<^verbatim>\<open>cancel_all_timers\<close>) and new
  (\<^verbatim>\<open>new_timer\<close>).
\<close>

datatype button =
    BtnCreateTimer
  | BtnCancelTimer string
  | BtnBack int
  | BtnForward int
  | BtnCancelAll
  | BtnNew

text \<open>
  The status of a row: the minutes and seconds left (\<^verbatim>\<open>remaining.seconds // 60\<close>
  and \<^verbatim>\<open>remaining.seconds % 60\<close>, where \<^verbatim>\<open>timedelta.seconds\<close> leaves the days out), or
  the text for a timer whose end time has passed.
\<close>

datatype row_status = Remaining int int | ShouldHaveFinished

record row =
  row_number :: int
  row_timer_id :: string
  row_description :: description
  row_status :: row_status

text \<open>The message text: no active timers, or the count and the two lines of each row.\<close>

datatype list_text = NoActiveTimers | TimerList nat "row list"

definition timedelta_seconds :: "int \<Rightarrow> int" where
  "timedelta_seconds d = (d div 1000000) mod 86400"

text \<open>
  The loop that puts the cancel buttons two in a row, the last row holding what is left.
\<close>

fun button_rows :: "button list \<Rightarrow> button list list" where
  "button_rows [] = []"
| "button_rows [b] = [[b]]"
| "button_rows (b # c # bs) = [b, c] # button_rows bs"

text \<open>
  \<open>now k\<close> is the \<^verbatim>\<open>datetime.now()\<close> read in the \<open>k\<close>-th iteration of the loop over
  the rows of the page.
\<close>

definition format_timer_list ::
  "int \<Rightarrow> int \<Rightarrow> int \<Rightarrow> (nat \<Rightarrow> int) \<Rightarrow> state \<Rightarrow> (list_text \<times> button list list) \<times> state" where
  "format_timer_list user_id page items_per_page now s =
     (let (user_timers, s1) = get_user_timers user_id s
      in if user_timers = [] then ((NoActiveTimers, [[BtnCreateTimer]]), s1)
         else
           (let sorted_timers = sort_key (\<lambda>x. created_at (snd x)) user_timers;
                total_count = length sorted_timers;
                start_idx = page * items_per_page;
                end_idx = start_idx + items_per_page;
                page_timers = py_slice sorted_timers start_idx end_idx;
                rows = map (\<lambda>(k, (timer_id, info)).
                              \<lparr>row_number = start_idx + 1 + int k,
                               row_timer_id = timer_id,
                               row_description = description info,
                               row_status =
                                 (if end_time info > now k
                                  then (let remaining = end_time info - now k
                                        in Remaining (timedelta_seconds remaining div 60)
                                             (timedelta_seconds remaining mod 60))
                                  else ShouldHaveFinished)\<rparr>)
                         (enumerate 0 page_timers);
                timer_buttons = button_rows (map (\<lambda>(timer_id, info). BtnCancelTimer timer_id) page_timers);
                pagination_buttons =
                  (if page > 0 then [BtnBack (page - 1)] else []) @
                  (if end_idx < int total_count then [BtnForward (page + 1)] else []);
                keyboard = timer_buttons @
                  (if pagination_buttons \<noteq> [] then [pagination_buttons] else []) @
                  [[BtnCancelAll, BtnNew]]
            in ((TimerList total_count rows, keyboard), s1)))"

text \<open>What a caller reads off the returned view.\<close>

definition view_rows :: "list_text \<times> button list list \<Rightarrow> row list" where
  "view_rows v = (case fst v of NoActiveTimers \<Rightarrow> [] | TimerList n rs \<Rightarrow> rs)"

definition has_prev :: "list_text \<times> button list list \<Rightarrow> bool" where
  "has_prev v = list_ex (list_ex (\<lambda>b. case b of BtnBack p \<Rightarrow> True | _ \<Rightarrow> False)) (snd v)"

definition has_next :: "list_text \<times> button list list \<Rightarrow> bool" where
  "has_next v = list_ex (list_ex (\<lambda>b. case b of BtnForward p \<Rightarrow> True | _ \<Rightarrow> False)) (snd v)"

section \<open>The handlers\<close>

subsection \<open>timer\_callback\<close>

text \<open>
  The callback of a job. It reads the user and the timer from the job, calls
  \<^verbatim>\<open>remove_timer\<close> and binds the result to \<^verbatim>\<open>timer_removed\<close>, a variable that no later
  line reads; it then counts what is left and calls \<^verbatim>\<open>send_message\<close>. An exception of
  \<^verbatim>\<open>send_message\<close> is caught and logged and changes no state, so \<^const>\<open>outbox\<close>
  records the call itself.
\<close>

definition timer_callback :: "ptb_job \<Rightarrow> state \<Rightarrow> state" where
  "timer_callback j s =
     (let user_id = job_user_id j;
          timer_id = job_timer_id j;
          descr = job_description j;
          (timer_removed, s1) = remove_timer user_id timer_id s;
          (remaining, s2) = get_timer_count user_id s1
      in s2\<lparr>outbox := outbox s2 @
           [\<lparr>chat_id = user_id, n_timer_id = timer_id, n_description = descr,
             remaining_count = remaining\<rparr>]\<rparr>)"

text \<open>The two steps of the job queue for a job that is due.\<close>

definition dispatch_job :: "ptb_job \<Rightarrow> state \<Rightarrow> state" where
  "dispatch_job j s =
     s\<lparr>job_queue := removeAll j (job_queue s), dispatched := dispatched s @ [j]\<rparr>"

definition run_callback :: "ptb_job \<Rightarrow> state \<Rightarrow> state" where
  "run_callback j s = timer_callback j (s\<lparr>dispatched := remove1 j (dispatched s)\<rparr>)"

subsection \<open>handle\_time\<close>

text \<open>
  The three replies of \<^verbatim>\<open>handle_time\<close>: the limit is reached (with the count and the
  limit), the time is not valid, the timer is started (with its id, the hours and
  minutes, the end time and the new count).
\<close>

datatype reply =
    MaxTimersReached nat nat
  | InvalidTimeFormat
  | TimerStarted string int int int nat

text \<open>
  \<open>message_text\<close> is \<^verbatim>\<open>update.message.text\<close>, \<open>uuid8\<close> is \<^verbatim>\<open>str(uuid.uuid4())[:8]\<close>,
  \<open>now_end\<close> and \<open>now_created\<close> are the two readings of \<^verbatim>\<open>datetime.now()\<close> (in
  \<^verbatim>\<open>handle_time\<close> and in \<^verbatim>\<open>add_timer\<close>). Nothing between the count and
  \<^verbatim>\<open>add_timer\<close> awaits, so the body is one step.
\<close>

definition handle_time :: "int \<Rightarrow> string \<Rightarrow> string \<Rightarrow> int \<Rightarrow> int \<Rightarrow> state \<Rightarrow> reply \<times> state" where
  "handle_time user_id message_text uuid8 now_end now_created s =
     (let time_str = py_strip message_text;
          (timer_count, s1) = get_timer_count user_id s;
          max_timers = MAX_TIMERS_PER_USER
      in if timer_count \<ge> max_timers then (MaxTimersReached timer_count max_timers, s1)
         else
           (case validate_time_format time_str of
              None \<Rightarrow> (InvalidTimeFormat, s1)
            | Some (hours, minutes) \<Rightarrow>
                (let total_seconds = hours * 3600 + minutes * 60;
                     timer_id = uuid8;
                     end_t = now_end + total_seconds * 1000000;
                     descr = Description hours minutes end_t;
                     (jb, s2) = run_once total_seconds user_id timer_id descr s1;
                     s3 = add_timer user_id timer_id descr end_t (Some jb) now_created s2;
                     (new_timer_count, s4) = get_timer_count user_id s3
                 in (TimerStarted timer_id hours minutes end_t new_timer_count, s4))))"

subsection \<open>Cancelling all timers\<close>

text \<open>
  The loop \<^verbatim>\<open>for timer_id in user_timers: if remove_timer(user_id, timer_id):
  cancelled_count += 1\<close> over the keys of the copy.
\<close>

fun cancel_loop :: "int \<Rightarrow> string list \<Rightarrow> nat \<Rightarrow> state \<Rightarrow> nat \<times> state" where
  "cancel_loop user_id [] cancelled_count s = (cancelled_count, s)"
| "cancel_loop user_id (timer_id # ids) cancelled_count s =
     (let (removed, s') = remove_timer user_id timer_id s
      in cancel_loop user_id ids (if removed then cancelled_count + 1 else cancelled_count) s')"

datatype cancel_reply = Cancelled nat | NothingToCancel

text \<open>
  \<^verbatim>\<open>cancel_timer\<close>, the \<^verbatim>\<open>/cancel\<close> command. The branch \<^verbatim>\<open>cancel_all_timers\<close> of
  \<^verbatim>\<open>button_callback\<close> repeats these lines.
\<close>

definition cancel_timer :: "int \<Rightarrow> state \<Rightarrow> cancel_reply \<times> state" where
  "cancel_timer user_id s =
     (let (timer_count, s1) = get_timer_count user_id s
      in if timer_count > 0
         then (let (user_timers, s2) = get_user_timers user_id s1;
                   snapshot = map fst user_timers;
                   (cancelled_count, s3) = cancel_loop user_id snapshot 0 s2
               in (Cancelled cancelled_count, s3))
         else (NothingToCancel, s1))"

definition button_callback_cancel_all_timers :: "int \<Rightarrow> state \<Rightarrow> cancel_reply \<times> state" where
  "button_callback_cancel_all_timers user_id s =
     (let (timer_count, s1) = get_timer_count user_id s
      in if timer_count > 0
         then (let (user_timers, s2) = get_user_timers user_id s1;
                   snapshot = map fst user_timers;
                   (cancelled_count, s3) = cancel_loop user_id snapshot 0 s2
               in (Cancelled cancelled_count, s3))
         else (NothingToCancel, s1))"

definition removed_count :: "cancel_reply \<Rightarrow> nat" where
  "removed_count r = (case r of Cancelled n \<Rightarrow> n | NothingToCancel \<Rightarrow> 0)"

subsection \<open>The states the process can reach\<close>

text \<open>
  The handlers run on one event loop and give way only at an \<^verbatim>\<open>await\<close>; each rule below
  is the registry work that one handler does between two such points, from an arbitrary
  update or due job: a text message (\<^verbatim>\<open>handle_time\<close>), \<^verbatim>\<open>/cancel\<close> and the cancel-all
  button, the cancel button of one timer, the list view, the counters of \<^verbatim>\<open>/start\<close>,
  \<^verbatim>\<open>/help\<close> and the new-timer button, \<^verbatim>\<open>/status\<close>, a scheduled job that is dispatched,
  and the callback of a dispatched job.
\<close>

inductive reachable :: "state \<Rightarrow> bool" where
  reach_init: "reachable init_state"
| reach_handle_time:
    "reachable s \<Longrightarrow> reachable (snd (handle_time user_id message_text uuid8 now_end now_created s))"
| reach_cancel_timer: "reachable s \<Longrightarrow> reachable (snd (cancel_timer user_id s))"
| reach_cancel_all_button:
    "reachable s \<Longrightarrow> reachable (snd (button_callback_cancel_all_timers user_id s))"
| reach_remove_timer: "reachable s \<Longrightarrow> reachable (snd (remove_timer user_id timer_id s))"
| reach_format_timer_list:
    "reachable s \<Longrightarrow> reachable (snd (format_timer_list user_id page items_per_page now s))"
| reach_get_timer_count: "reachable s \<Longrightarrow> reachable (snd (get_timer_count user_id s))"
| reach_status_timer: "reachable s \<Longrightarrow> reachable (snd (get_user_timers user_id s))"
| reach_dispatch_job:
    "reachable s \<Longrightarrow> j \<in> set (job_queue s) \<Longrightarrow> reachable (dispatch_job j s)"
| reach_run_callback:
    "reachable s \<Longrightarrow> j \<in> set (dispatched s) \<Longrightarrow> reachable (run_callback j s)"

text \<open>The timers of a user as a reader sees them: none for a user without an entry.\<close>

definition timers_of :: "state \<Rightarrow> int \<Rightarrow> user_timers" where
  "timers_of s user_id = (case active_timers s user_id of None \<Rightarrow> [] | Some d \<Rightarrow> d)"

definition timer_of :: "state \<Rightarrow> int \<Rightarrow> string \<Rightarrow> timer_info option" where
  "timer_of s user_id timer_id = map_of (timers_of s user_id) timer_id"

section \<open>Specification-side definitions and fixtures\<close>

text \<open>
  The parser as the specification words it (section 4.1): digits only, else
  \<open>InvalidFormat\<close>; length 1 to 3 is a number of minutes between 1 and 999; length 4
  is \<open>HHMM\<close> with \<open>HH\<close> at most 23, \<open>MM\<close> at most 59 and not both zero; length 0 or
  more than 4 is \<open>InvalidFormat\<close>. It is compared with \<^const>\<open>validate_time_format\<close>
  below.
\<close>

datatype parse_error = InvalidFormat | OutOfRange

definition parse_spec :: "string \<Rightarrow> parse_error + (int \<times> int)" where
  "parse_spec s =
     (if s = [] \<or> 4 < length s \<or> \<not> list_all is_digit s then Inl InvalidFormat
      else if length s \<le> 3 then
        (let m = int (digits_value s)
         in if 1 \<le> m \<and> m \<le> 999 then Inr (m div 60, m mod 60) else Inl OutOfRange)
      else
        (let hh = int (digits_value (take 2 s)); mm = int (digits_value (drop 2 s))
         in if hh \<le> 23 \<and> mm \<le> 59 \<and> \<not> (hh = 0 \<and> mm = 0) then Inr (hh, mm)
            else Inl OutOfRange))"

text \<open>The registry invariant of the specification: no user is mapped to an empty dictionary.\<close>

definition no_empty_entry :: "state \<Rightarrow> bool" where
  "no_empty_entry s = ([] \<notin> ran (active_timers s))"

text \<open>
  A run of the bot: user 1 sends \<^verbatim>\<open>90\<close> and a timer \<^verbatim>\<open>a1b2c3d4\<close> starts; its job
  becomes due and is dispatched; before the callback starts, the user presses the cancel
  button of that timer.
\<close>

definition job0 :: ptb_job where
  "job0 = \<lparr>job_id = 0, job_user_id = 1, job_delay = 5400, job_timer_id = ''a1b2c3d4'',
     job_description = Description 1 30 5400000000\<rparr>"

definition started_state :: state where
  "started_state = snd (handle_time 1 ''90'' ''a1b2c3d4'' 0 0 init_state)"

definition dispatched_state :: state where
  "dispatched_state = dispatch_job job0 started_state"

definition cancelled_state :: state where
  "cancelled_state = snd (remove_timer 1 ''a1b2c3d4'' dispatched_state)"

text \<open>
  The two facts about every user's dictionary that the reachable states keep: at most
  \<^const>\<open>MAX_TIMERS_PER_USER\<close> timers, and keys that are distinct, as the keys of a
  \<^verbatim>\<open>dict\<close> are.
\<close>

definition registry_ok :: "state \<Rightarrow> bool" where
  "registry_ok s =
     (\<forall>u. length (timers_of s u) \<le> MAX_TIMERS_PER_USER \<and> distinct (map fst (timers_of s u)))"

text \<open>
  Runs in which one user starts timers of 90 minutes one after the other, with the
  given ids; the clock readings count down, so that the order of creation times is the
  reverse of the order of insertion.
\<close>

fun start_timers :: "int \<Rightarrow> string list \<Rightarrow> state \<Rightarrow> state" where
  "start_timers u [] s = s"
| "start_timers u (i # ids) s =
     start_timers u ids (snd (handle_time u ''90'' i (int (length ids)) (int (length ids)) s))"

definition ten_ids :: "string list" where
  "ten_ids = [''00000000'', ''00000001'', ''00000002'', ''00000003'', ''00000004'',
              ''00000005'', ''00000006'', ''00000007'', ''00000008'', ''00000009'']"

definition full_state :: state where
  "full_state = start_timers 1 ten_ids init_state"

definition three_state :: state where
  "three_state = start_timers 1 (take 3 ten_ids) init_state"

definition seven_state :: state where
  "seven_state = start_timers 1 (take 7 ten_ids) init_state"

text \<open>A registry with two users, built with \<^verbatim>\<open>add_timer\<close> alone.\<close>

definition two_users :: state where
  "two_users =
     add_timer 2 ''0000000b'' (Description 0 45 2700000003) 2700000003 None 3
       (add_timer 1 ''00000002'' (Description 2 0 7200000002) 7200000002 None 2
          (add_timer 1 ''00000001'' (Description 1 30 5400000001) 5400000001 None 1 init_state))"

text \<open>
  The slice of the specification: the user's timers in the order of \<^verbatim>\<open>created_at\<close>,
  from index \<open>page * 5\<close>, five of them at most.
\<close>

definition page_slice :: "state \<Rightarrow> int \<Rightarrow> int \<Rightarrow> user_timers" where
  "page_slice s u page =
     take 5 (drop (nat (page * 5)) (sort_key (\<lambda>x. created_at (snd x)) (timers_of s u)))"

section \<open>Properties\<close>

lemmas parse_defs = validate_time_format_def re_match_digits_def is_digit_def py_int_def
  py_strip_def py_isspace_def digits_value_def digit_val_def

lemmas registry_defs = get_user_timers_def get_timer_count_def remove_timer_def add_timer_def
  schedule_removal_def run_once_def init_state_def MAX_TIMERS_PER_USER_def

subsection \<open>The parser\<close>

lemma validate_time_format_90: "validate_time_format ''90'' = Some (1, 30)"
  by (simp add: parse_defs)

lemma validate_time_format_0200: "validate_time_format ''0200'' = Some (2, 0)"
  by (simp add: parse_defs)

lemma validate_time_format_0000: "validate_time_format ''0000'' = None"
  by (simp add: parse_defs)

lemma digit_not_space: "is_digit c \<Longrightarrow> \<not> py_isspace c"
  by (auto simp: is_digit_def py_isspace_def Let_def)

lemma digit_not_underscore: "is_digit c \<Longrightarrow> c \<noteq> CHR ''_''"
  by (auto simp: is_digit_def)

lemma digit_not_sign: "is_digit c \<Longrightarrow> c \<noteq> CHR ''-'' \<and> c \<noteq> CHR ''+''"
  by (auto simp: is_digit_def)

lemma digit_not_newline: "is_digit c \<Longrightarrow> c \<noteq> CHR 0x0A"
  by (auto simp: is_digit_def)

lemma py_strip_digits: "list_all is_digit s \<Longrightarrow> py_strip s = s"
proof (cases s rule: rev_cases)
  case Nil
  then show ?thesis by (simp add: py_strip_def)
next
  case (snoc ys y)
  assume a: "list_all is_digit s"
  then have y: "\<not> py_isspace y" using snoc by (simp add: digit_not_space)
  have "dropWhile py_isspace s = s"
    using a by (cases s) (simp_all add: digit_not_space)
  then show ?thesis using snoc y by (simp add: py_strip_def)
qed

lemma literal_body_digits: "s \<noteq> [] \<Longrightarrow> list_all is_digit s \<Longrightarrow> literal_body s"
  by (induction s rule: literal_body.induct) (auto simp: digit_not_underscore)

lemma filter_digits: "list_all is_digit s \<Longrightarrow> filter is_digit s = s"
  by (induction s) auto

lemma py_int_digits:
  assumes "s \<noteq> []" "list_all is_digit s"
  shows "py_int s = Some (int (digits_value s))"
proof -
  have "hd s \<noteq> CHR ''-''" "hd s \<noteq> CHR ''+''"
    using assms by (cases s; simp add: digit_not_sign)+
  then show ?thesis
    using assms by (simp add: py_int_def py_strip_digits literal_body_digits filter_digits)
qed

lemma re_match_digits_all:
  assumes "s \<noteq> []" "list_all is_digit s"
  shows "re_match_digits s"
proof -
  have all: "\<forall>x\<in>set s. is_digit x" using assms(2) by (simp add: list_all_iff)
  have t: "takeWhile is_digit s = s" using all by (simp only: takeWhile_eq_all_conv)
  have d: "dropWhile is_digit s = []" using all by (simp only: dropWhile_eq_Nil_conv)
  show ?thesis unfolding re_match_digits_def Let_def t d using assms(1) by simp
qed

lemma re_match_digits_no_newline:
  assumes "re_match_digits s" "s = [] \<or> last s \<noteq> CHR 0x0A"
  shows "s \<noteq> [] \<and> list_all is_digit s"
proof -
  from assms(1) have ne: "takeWhile is_digit s \<noteq> []"
    unfolding re_match_digits_def Let_def by blast
  from assms(1) have r: "dropWhile is_digit s = [] \<or> dropWhile is_digit s = [CHR 0x0A]"
    unfolding re_match_digits_def Let_def by blast
  from ne have n: "s \<noteq> []" by auto
  have "dropWhile is_digit s = []"
  proof (rule ccontr)
    assume "dropWhile is_digit s \<noteq> []"
    with r have d: "dropWhile is_digit s = [CHR 0x0A]" by blast
    have "takeWhile is_digit s @ dropWhile is_digit s = s" by (rule takeWhile_dropWhile_id)
    then have "s = takeWhile is_digit s @ [CHR 0x0A]" unfolding d by (rule sym)
    then have "last s = CHR 0x0A" by (metis last_snoc)
    with assms(2) n show False by blast
  qed
  then have "\<forall>x\<in>set s. is_digit x" by (simp only: dropWhile_eq_Nil_conv)
  then show ?thesis using n by (simp add: list_all_iff)
qed

lemma validate_time_format_refines_spec:
  assumes "s = [] \<or> last s \<noteq> CHR 0x0A"
  shows "validate_time_format s = (case parse_spec s of Inl e \<Rightarrow> None | Inr v \<Rightarrow> Some v)"
proof (cases "s \<noteq> [] \<and> list_all is_digit s")
  case False
  then have "\<not> re_match_digits s" using re_match_digits_no_newline [OF _ assms] by blast
  then show ?thesis using False by (auto simp: validate_time_format_def parse_spec_def)
next
  case True
  then have m: "re_match_digits s" by (simp add: re_match_digits_all)
  show ?thesis
  proof (cases "length s \<le> 3")
    case le: True
    then show ?thesis using True m
      by (simp add: validate_time_format_def parse_spec_def py_int_digits Let_def)
  next
    case gt: False
    show ?thesis
    proof (cases "length s = 4")
      case True
      have t: "take 2 s \<noteq> []" "drop 2 s \<noteq> []" using True by auto
      have a: "list_all is_digit (take 2 s)" "list_all is_digit (drop 2 s)"
        using \<open>s \<noteq> [] \<and> list_all is_digit s\<close>
        by (auto simp: list_all_iff dest: in_set_takeD in_set_dropD)
      show ?thesis using True m \<open>s \<noteq> [] \<and> list_all is_digit s\<close>
        by (auto simp add: validate_time_format_def parse_spec_def py_int_digits [OF t(1) a(1)]
            py_int_digits [OF t(2) a(2)] Let_def)
    next
      case False
      then show ?thesis using gt True m
        by (auto simp add: validate_time_format_def parse_spec_def)
    qed
  qed
qed

text \<open>
  C2. The case analysis of the specification holds for every string that does not end
  in a newline (\<open>validate_time_format_refines_spec\<close>). It fails for a string of
  digits followed by one newline: \<^verbatim>\<open>$\<close> matches before that newline and \<^verbatim>\<open>int\<close>
  strips it, so \<^verbatim>\<open>"12\n"\<close>, which contains a character that is not a digit, is
  accepted as twelve minutes, where the specification rejects it.
\<close>

theorem validate_time_format_trailing_newline:
  "validate_time_format ''12\<newline>'' = Some (0, 12) \<and>
   \<not> list_all is_digit ''12\<newline>'' \<and>
   parse_spec ''12\<newline>'' = Inl InvalidFormat"
  by (simp add: parse_defs parse_spec_def)

text \<open>
  C3, as stated, fails at \<^verbatim>\<open>"1000"\<close>: a string of four digits is read as \<open>HHMM\<close>, ten
  hours and no minutes.
\<close>

theorem validate_time_format_1000_value: "validate_time_format ''1000'' = Some (10, 0)"
  by (simp add: parse_defs)

text \<open>
  C3, amended. The inputs \<^verbatim>\<open>"0"\<close>, \<^verbatim>\<open>"abcd"\<close> and the empty string are rejected;
  \<^verbatim>\<open>"1000"\<close> is accepted and yields 10 hours and 0 minutes.
\<close>

theorem validate_time_format_examples:
  "validate_time_format ''0'' = None \<and> validate_time_format ''abcd'' = None \<and>
   validate_time_format '''' = None \<and> validate_time_format ''1000'' = Some (10, 0)"
  by (simp add: parse_defs)

subsection \<open>The run in which a cancelled timer fires\<close>

lemma started_state_eq: "started_state =
  \<lparr>active_timers = [1 \<mapsto> [(''a1b2c3d4'', \<lparr>description = Description 1 30 5400000000,
       end_time = 5400000000, job = Some job0, created_at = 0\<rparr>)]],
   job_queue = [job0], dispatched = [], next_job_id = 1, outbox = []\<rparr>"
  by (simp add: started_state_def job0_def handle_time_def registry_defs parse_defs Let_def)

lemma dispatched_state_eq: "dispatched_state =
  \<lparr>active_timers = [1 \<mapsto> [(''a1b2c3d4'', \<lparr>description = Description 1 30 5400000000,
       end_time = 5400000000, job = Some job0, created_at = 0\<rparr>)]],
   job_queue = [], dispatched = [job0], next_job_id = 1, outbox = []\<rparr>"
  by (simp add: dispatched_state_def dispatch_job_def started_state_eq)

lemma cancel_dispatched:
  "remove_timer 1 ''a1b2c3d4'' dispatched_state =
     (True, \<lparr>active_timers = Map.empty, job_queue = [], dispatched = [job0], next_job_id = 1,
             outbox = []\<rparr>)"
  by (simp add: dispatched_state_eq registry_defs Let_def)

lemma cancelled_state_eq: "cancelled_state =
   \<lparr>active_timers = Map.empty, job_queue = [], dispatched = [job0], next_job_id = 1,
     outbox = []\<rparr>"
  by (simp add: cancelled_state_def cancel_dispatched)

lemma reachable_cancelled_state:
  "reachable cancelled_state \<and> job0 \<in> set (dispatched cancelled_state)"
proof -
  have 1: "reachable started_state"
    unfolding started_state_def by (rule reach_handle_time [OF reach_init])
  have "job0 \<in> set (job_queue started_state)" by (simp add: started_state_eq)
  with 1 have 2: "reachable dispatched_state"
    unfolding dispatched_state_def by (rule reach_dispatch_job)
  have "reachable cancelled_state"
    unfolding cancelled_state_def by (rule reach_remove_timer [OF 2])
  then show ?thesis by (simp add: cancelled_state_eq)
qed

text \<open>Whatever \<^verbatim>\<open>remove_timer\<close> returned, the callback makes one call of \<^verbatim>\<open>send_message\<close>.\<close>

lemma timer_callback_outbox:
  "outbox (timer_callback j s) = outbox s @
     [\<lparr>chat_id = job_user_id j, n_timer_id = job_timer_id j,
       n_description = job_description j,
       remaining_count =
         length (timers_of (snd (remove_timer (job_user_id j) (job_timer_id j) s))
                   (job_user_id j))\<rparr>]"
  by (auto simp: timer_callback_def registry_defs timers_of_def Let_def
      split: option.splits sum.splits)

text \<open>
  C1. The callback does remove the timer first, but it never reads the result: in the
  run above the cancel button removed the timer (\<^verbatim>\<open>remove_timer\<close> returned
  \<^verbatim>\<open>True\<close>), the callback's own \<^verbatim>\<open>remove_timer\<close> returns \<^verbatim>\<open>False\<close>, and the
  notification of the cancelled timer is sent all the same.
\<close>

theorem timer_callback_notifies_cancelled_timer:
  "fst (remove_timer 1 ''a1b2c3d4'' dispatched_state) = True \<and>
   timer_of cancelled_state 1 ''a1b2c3d4'' = None \<and>
   fst (remove_timer 1 ''a1b2c3d4'' cancelled_state) = False \<and>
   outbox cancelled_state = [] \<and>
   outbox (run_callback job0 cancelled_state) =
     [\<lparr>chat_id = 1, n_timer_id = ''a1b2c3d4'', n_description = Description 1 30 5400000000,
       remaining_count = 0\<rparr>]"
  unfolding cancel_dispatched cancelled_state_eq
  by (simp add: run_callback_def timer_callback_def registry_defs timer_of_def timers_of_def
      Let_def job0_def)

subsection \<open>Empty entries\<close>

text \<open>
  C4. The empty registry has no empty entry, and each of the count, the list view and
  a \<^verbatim>\<open>remove_timer\<close> that finds nothing leaves one for a user who had no entry:
  \<^verbatim>\<open>get_user_timers\<close> stores an empty dictionary through \<^verbatim>\<open>setdefault\<close>, and only the
  branch of \<^verbatim>\<open>remove_timer\<close> that deleted a timer pops it again.
\<close>

theorem read_leaves_empty_entry:
  "no_empty_entry init_state \<and>
   \<not> no_empty_entry (snd (get_timer_count 1 init_state)) \<and>
   \<not> no_empty_entry (snd (format_timer_list 1 0 5 (\<lambda>k. 0) init_state)) \<and>
   \<not> no_empty_entry (snd (remove_timer 1 ''a1b2c3d4'' init_state))"
  by (simp add: no_empty_entry_def format_timer_list_def registry_defs)

text \<open>
  C6. A \<^verbatim>\<open>remove_timer\<close> that does not find the timer returns \<^verbatim>\<open>False\<close>, but for a
  user without an entry it does change the registry: the user now has an empty entry.
  The rest of the claim holds and is proved further down: nothing else changes when the
  timer is not found (\<open>remove_timer_not_found\<close>); a timer that is found is deleted,
  its job is no longer scheduled, an emptied entry is popped and the result is
  \<^verbatim>\<open>True\<close> (\<open>remove_timer_found\<close>); a second call returns \<^verbatim>\<open>False\<close>
  (\<open>remove_timer_twice\<close>).
\<close>

theorem remove_timer_not_found_changes_state:
  "timer_of init_state 1 ''a1b2c3d4'' = None \<and>
   fst (remove_timer 1 ''a1b2c3d4'' init_state) = False \<and>
   active_timers init_state 1 = None \<and>
   active_timers (snd (remove_timer 1 ''a1b2c3d4'' init_state)) 1 = Some [] \<and>
   snd (remove_timer 1 ''a1b2c3d4'' init_state) \<noteq> init_state"
proof -
  have a: "active_timers init_state 1 = None" by (simp add: init_state_def)
  have b: "active_timers (snd (remove_timer 1 ''a1b2c3d4'' init_state)) 1 = Some []"
    by (simp add: registry_defs)
  from a b have "snd (remove_timer 1 ''a1b2c3d4'' init_state) \<noteq> init_state"
    by (metis option.distinct(1))
  with a b show ?thesis by (simp add: timer_of_def timers_of_def registry_defs)
qed

subsection \<open>What each registry operation does to the timers of every user\<close>

lemma get_user_timers_fst: "fst (get_user_timers u s) = timers_of s u"
  by (simp add: get_user_timers_def timers_of_def split: option.splits)

lemma get_user_timers_snd_timers:
  "timers_of (snd (get_user_timers u s)) u' = timers_of s u'"
  by (simp add: get_user_timers_def timers_of_def split: option.splits)

lemma get_user_timers_snd_entry:
  "active_timers (snd (get_user_timers u s)) u = Some (timers_of s u)"
  by (simp add: get_user_timers_def timers_of_def split: option.splits)

lemma get_user_timers_snd_other:
  "u' \<noteq> u \<Longrightarrow> active_timers (snd (get_user_timers u s)) u' = active_timers s u'"
  by (simp add: get_user_timers_def split: option.splits)

lemma get_user_timers_snd_rest:
  "job_queue (snd (get_user_timers u s)) = job_queue s"
  "dispatched (snd (get_user_timers u s)) = dispatched s"
  "next_job_id (snd (get_user_timers u s)) = next_job_id s"
  "outbox (snd (get_user_timers u s)) = outbox s"
  by (simp_all add: get_user_timers_def split: option.splits)

lemma get_timer_count_fst: "fst (get_timer_count u s) = length (timers_of s u)"
  by (simp add: get_timer_count_def split_def Let_def get_user_timers_fst)

lemma get_timer_count_snd: "snd (get_timer_count u s) = snd (get_user_timers u s)"
  by (simp add: get_timer_count_def split_def Let_def)

lemma delete_absent: "map_of al k = None \<Longrightarrow> AList.delete k al = al"
  by (induction al) (auto split: if_splits)

lemma remove_timer_fst: "fst (remove_timer u t s) = (timer_of s u t \<noteq> None)"
  by (simp add: remove_timer_def split_def get_user_timers_fst timer_of_def Let_def
      split: option.splits)

lemma remove_timer_timers:
  "timers_of (snd (remove_timer u t s)) u' =
     (if u' = u then AList.delete t (timers_of s u) else timers_of s u')"
proof -
  obtain d s1 where g: "get_user_timers u s = (d, s1)" by (cases "get_user_timers u s")
  have d: "d = timers_of s u" using g get_user_timers_fst [of u s] by simp
  have s1: "timers_of s1 u' = timers_of s u'" for u'
    using g get_user_timers_snd_timers [of u s u'] by simp
  show ?thesis
  proof (cases "map_of d t")
    case None
    then show ?thesis using g d s1 by (simp add: remove_timer_def delete_absent)
  next
    case (Some info)
    have "timers_of s1 u' = timers_of s u'" by (rule s1)
    then show ?thesis using g d Some
      by (auto simp: remove_timer_def Let_def timers_of_def split: option.splits sum.splits)
  qed
qed

lemma remove_timer_other_entry:
  "u' \<noteq> u \<Longrightarrow> active_timers (snd (remove_timer u t s)) u' = active_timers s u'"
  by (auto simp: remove_timer_def get_user_timers_def Let_def split: option.splits sum.splits)

lemma add_timer_timers:
  "timers_of (add_timer u t d e jb n s) u' =
     (if u' = u
      then AList.update t \<lparr>description = d, end_time = e, job = jb, created_at = n\<rparr> (timers_of s u)
      else timers_of s u')"
  by (auto simp: add_timer_def get_user_timers_def timers_of_def Let_def split: option.splits)

lemma add_timer_other_entry:
  "u' \<noteq> u \<Longrightarrow> active_timers (add_timer u t d e jb n s) u' = active_timers s u'"
  by (auto simp: add_timer_def get_user_timers_def Let_def split: option.splits)

text \<open>
  C10. \<^verbatim>\<open>add_timer(u, t, ...)\<close> and \<^verbatim>\<open>remove_timer(u, t)\<close> leave the entry of every
  other user as it is, and leave every timer of \<open>u\<close> other than \<open>t\<close> as it is (the whole
  record: description, end time, creation time and job).
\<close>

theorem single_timer_frame:
  "(u' \<noteq> u \<longrightarrow>
      active_timers (add_timer u t d e jb n s) u' = active_timers s u' \<and>
      active_timers (snd (remove_timer u t s)) u' = active_timers s u') \<and>
   (t' \<noteq> t \<longrightarrow>
      timer_of (add_timer u t d e jb n s) u t' = timer_of s u t' \<and>
      timer_of (snd (remove_timer u t s)) u t' = timer_of s u t')"
  by (simp add: add_timer_other_entry remove_timer_other_entry timer_of_def add_timer_timers
      remove_timer_timers update_conv' delete_conv')

lemma two_users_eq:
  "two_users = init_state\<lparr>active_timers :=
     [1 \<mapsto> [(''00000001'', \<lparr>description = Description 1 30 5400000001, end_time = 5400000001,
                                job = None, created_at = 1\<rparr>),
               (''00000002'', \<lparr>description = Description 2 0 7200000002, end_time = 7200000002,
                                job = None, created_at = 2\<rparr>)],
      2 \<mapsto> [(''0000000b'', \<lparr>description = Description 0 45 2700000003, end_time = 2700000003,
                                job = None, created_at = 3\<rparr>)]]\<rparr>"
  by (simp add: two_users_def registry_defs Let_def fun_upd_twist)

theorem single_timer_frame_witness:
  "(2::int) \<noteq> 1 \<and> ''00000002'' \<noteq> ''00000001'' \<and>
   active_timers two_users 2 \<noteq> None \<and>
   timer_of two_users 1 ''00000002'' \<noteq> None \<and>
   active_timers (add_timer 1 ''00000001'' (Description 0 5 9) 9 None 4 two_users) 2 =
     active_timers two_users 2 \<and>
   active_timers (snd (remove_timer 1 ''00000001'' two_users)) 2 = active_timers two_users 2 \<and>
   timer_of (add_timer 1 ''00000001'' (Description 0 5 9) 9 None 4 two_users) 1 ''00000002'' =
     timer_of two_users 1 ''00000002'' \<and>
   timer_of (snd (remove_timer 1 ''00000001'' two_users)) 1 ''00000002'' =
     timer_of two_users 1 ''00000002''"
proof -
  have a: "active_timers two_users 2 \<noteq> None" by (simp add: two_users_eq)
  have b: "timer_of two_users 1 ''00000002'' \<noteq> None"
    by (simp add: two_users_eq timer_of_def timers_of_def)
  have c: "(2::int) \<noteq> 1" "''00000002'' \<noteq> ''00000001''" by simp_all
  from single_timer_frame [of 2 1 "''00000001''" "Description 0 5 9" 9 None 4 two_users
      "''00000002''"] c
  have "active_timers (add_timer 1 ''00000001'' (Description 0 5 9) 9 None 4 two_users) 2 =
     active_timers two_users 2 \<and>
   active_timers (snd (remove_timer 1 ''00000001'' two_users)) 2 = active_timers two_users 2 \<and>
   timer_of (add_timer 1 ''00000001'' (Description 0 5 9) 9 None 4 two_users) 1 ''00000002'' =
     timer_of two_users 1 ''00000002'' \<and>
   timer_of (snd (remove_timer 1 ''00000001'' two_users)) 1 ''00000002'' =
     timer_of two_users 1 ''00000002''"
    by blast
  with a b c show ?thesis by blast
qed

subsection \<open>The three outcomes of handle\_time\<close>

lemma length_update_alist:
  "length (AList.update k v al) = (if k \<in> fst ` set al then length al else Suc (length al))"
  by (induction al) auto

lemma remove_timer_rest:
  "dispatched (snd (remove_timer u t s)) = dispatched s"
  "next_job_id (snd (remove_timer u t s)) = next_job_id s"
  "outbox (snd (remove_timer u t s)) = outbox s"
  "set (job_queue (snd (remove_timer u t s))) \<subseteq> set (job_queue s)"
  by (auto simp: remove_timer_def get_user_timers_def schedule_removal_def Let_def
      split: option.splits sum.splits if_splits)

lemma get_user_timers_entry_present:
  "active_timers s u = Some d \<Longrightarrow> get_user_timers u s = (d, s)"
  by (simp add: get_user_timers_def)

lemma timers_nonempty_entry: "timers_of s u \<noteq> [] \<Longrightarrow> active_timers s u = Some (timers_of s u)"
  by (auto simp: timers_of_def split: option.splits)

lemma run_once_timers: "active_timers (snd (run_once d u t descr s)) = active_timers s"
  by (simp add: run_once_def Let_def)

lemma timers_of_cong: "active_timers s = active_timers s' \<Longrightarrow> timers_of s = timers_of s'"
  by (auto simp: timers_of_def fun_eq_iff)

lemma handle_time_at_capacity:
  assumes "MAX_TIMERS_PER_USER \<le> length (timers_of s u)"
  shows "handle_time u msg uuid8 n1 n2 s =
           (MaxTimersReached (length (timers_of s u)) MAX_TIMERS_PER_USER, s)"
proof -
  from assms have "timers_of s u \<noteq> []" by (auto simp: MAX_TIMERS_PER_USER_def)
  then have "get_user_timers u s = (timers_of s u, s)"
    by (simp add: timers_nonempty_entry get_user_timers_entry_present)
  then show ?thesis using assms
    by (simp add: handle_time_def get_timer_count_def Let_def)
qed

lemma handle_time_invalid:
  assumes "length (timers_of s u) < MAX_TIMERS_PER_USER"
    and "validate_time_format (py_strip msg) = None"
  shows "handle_time u msg uuid8 n1 n2 s = (InvalidTimeFormat, snd (get_user_timers u s))"
  using assms
  by (simp add: handle_time_def get_timer_count_def Let_def split_def get_user_timers_fst)

lemma handle_time_started:
  assumes "length (timers_of s u) < MAX_TIMERS_PER_USER"
    and "validate_time_format (py_strip msg) = Some (h, m)"
  shows "\<exists>jb s'. handle_time u msg uuid8 n1 n2 s =
           (TimerStarted uuid8 h m (n1 + (h * 3600 + m * 60) * 1000000) (length (timers_of s' u)), s') \<and>
         timers_of s' = (timers_of s)(u :=
           AList.update uuid8
             \<lparr>description = Description h m (n1 + (h * 3600 + m * 60) * 1000000),
              end_time = n1 + (h * 3600 + m * 60) * 1000000, job = Some jb, created_at = n2\<rparr>
             (timers_of s u)) \<and>
         jb = \<lparr>job_id = next_job_id s, job_user_id = u, job_delay = h * 3600 + m * 60,
                job_timer_id = uuid8,
                job_description = Description h m (n1 + (h * 3600 + m * 60) * 1000000)\<rparr> \<and>
         job_queue s' = job_queue s @ [jb] \<and> dispatched s' = dispatched s \<and>
         outbox s' = outbox s \<and> next_job_id s' = Suc (next_job_id s)"
  using assms
  by (auto simp: handle_time_def get_timer_count_def Let_def split_def get_user_timers_fst
      add_timer_def run_once_def get_user_timers_def timers_of_def fun_eq_iff
      split: option.splits)


subsection \<open>The cancel loop\<close>

lemma length_delete_bound: "length al \<le> n \<Longrightarrow> length (AList.delete k al) \<le> n"
  using length_delete_le [of k al] by simp

lemma delete_filter: "AList.delete k al = filter (\<lambda>p. fst p \<noteq> k) al"
  by (induction al) auto


lemma cancel_loop_timers:
  "timers_of (snd (cancel_loop u ids c s)) u' =
     (if u' = u then filter (\<lambda>p. fst p \<notin> set ids) (timers_of s u) else timers_of s u')"
proof (induction ids arbitrary: c s)
  case Nil
  then show ?case by simp
next
  case (Cons t ids)
  show ?case
    by (simp add: split_def Let_def Cons.IH remove_timer_timers delete_filter conj_commute)
qed

lemma cancel_loop_count:
  "distinct ids \<Longrightarrow> set ids \<subseteq> fst ` set (timers_of s u) \<Longrightarrow>
   fst (cancel_loop u ids c s) = c + length ids"
proof (induction ids arbitrary: c s)
  case Nil
  then show ?case by simp
next
  case (Cons t ids)
  from Cons.prems have found: "timer_of s u t \<noteq> None"
    by (auto simp: timer_of_def map_of_eq_None_iff)
  have sub: "set ids \<subseteq> fst ` set (timers_of (snd (remove_timer u t s)) u)"
  proof
    fix x assume x: "x \<in> set ids"
    with Cons.prems have "x \<noteq> t" "x \<in> fst ` set (timers_of s u)" by auto
    then show "x \<in> fst ` set (timers_of (snd (remove_timer u t s)) u)"
      by (auto simp: remove_timer_timers delete_filter image_iff)
  qed
  from Cons.prems have "distinct ids" by simp
  from Cons.IH [OF this sub] found show ?case
    by (simp add: split_def Let_def remove_timer_fst)
qed

lemma cancel_timer_timers:
  "timers_of (snd (cancel_timer u s)) u' = (if u' = u then [] else timers_of s u')"
proof -
  have e: "filter (\<lambda>p. fst p \<notin> fst ` set al) al = []" for al :: user_timers
    by (induction al) auto
  show ?thesis
    by (auto simp: cancel_timer_def split_def Let_def get_timer_count_fst get_timer_count_snd
        get_user_timers_fst get_user_timers_snd_timers cancel_loop_timers e)
qed

lemma cancel_timer_count:
  assumes "distinct (map fst (timers_of s u))"
  shows "removed_count (fst (cancel_timer u s)) = length (timers_of s u)"
proof (cases "timers_of s u = []")
  case True
  then show ?thesis
    by (simp add: cancel_timer_def split_def Let_def get_timer_count_fst removed_count_def)
next
  case False
  have "fst (cancel_loop u (map fst (timers_of s u)) 0
          (snd (get_user_timers u (snd (get_user_timers u s))))) = 0 + length (map fst (timers_of s u))"
    by (rule cancel_loop_count) (simp_all add: assms get_user_timers_snd_timers)
  then show ?thesis using False
    by (simp add: cancel_timer_def split_def Let_def get_timer_count_fst get_timer_count_snd
        get_user_timers_fst get_user_timers_snd_timers removed_count_def)
qed

lemma button_cancel_all_eq: "button_callback_cancel_all_timers = cancel_timer"
  by (simp add: fun_eq_iff button_callback_cancel_all_timers_def cancel_timer_def)

subsection \<open>Invariants of the reachable states\<close>

lemma format_timer_list_snd:
  "snd (format_timer_list u page ipp now s) = snd (get_user_timers u s)"
  by (simp add: format_timer_list_def split_def Let_def)

lemma timer_callback_timers:
  "timers_of (timer_callback j s) u' =
     (if u' = job_user_id j then AList.delete (job_timer_id j) (timers_of s (job_user_id j))
      else timers_of s u')"
proof -
  have "timers_of (timer_callback j s) =
        timers_of (snd (get_user_timers (job_user_id j)
          (snd (remove_timer (job_user_id j) (job_timer_id j) s))))"
    by (rule timers_of_cong) (simp add: timer_callback_def split_def Let_def get_timer_count_snd)
  then show ?thesis by (simp add: get_user_timers_snd_timers remove_timer_timers)
qed

lemma handle_time_timers_cases:
  "timers_of (snd (handle_time u msg uuid8 n1 n2 s)) u' = timers_of s u' \<or>
   (u' = u \<and> length (timers_of s u) < MAX_TIMERS_PER_USER \<and>
    (\<exists>info. timers_of (snd (handle_time u msg uuid8 n1 n2 s)) u' =
             AList.update uuid8 info (timers_of s u)))"
proof (cases "MAX_TIMERS_PER_USER \<le> length (timers_of s u)")
  case True
  then show ?thesis by (simp add: handle_time_at_capacity)
next
  case False
  then have lt: "length (timers_of s u) < MAX_TIMERS_PER_USER" by simp
  show ?thesis
  proof (cases "validate_time_format (py_strip msg)")
    case None
    then show ?thesis using lt by (simp add: handle_time_invalid get_user_timers_snd_timers)
  next
    case (Some hm)
    obtain h m where "hm = (h, m)" by (cases hm)
    with Some handle_time_started [OF lt, of msg h m uuid8 n1 n2]
    obtain info s' where "snd (handle_time u msg uuid8 n1 n2 s) = s'"
      "timers_of s' = (timers_of s)(u := AList.update uuid8 info (timers_of s u))"
      by auto
    then show ?thesis using lt by (cases "u' = u") auto
  qed
qed

lemma registry_ok_handle_time:
  assumes "registry_ok s"
  shows "registry_ok (snd (handle_time u msg uuid8 n1 n2 s))"
  unfolding registry_ok_def
proof
  fix u'
  from assms have a: "length (timers_of s u') \<le> MAX_TIMERS_PER_USER"
    "distinct (map fst (timers_of s u'))" by (simp_all add: registry_ok_def)
  from handle_time_timers_cases [of u msg uuid8 n1 n2 s u']
  show "length (timers_of (snd (handle_time u msg uuid8 n1 n2 s)) u') \<le> MAX_TIMERS_PER_USER \<and>
        distinct (map fst (timers_of (snd (handle_time u msg uuid8 n1 n2 s)) u'))"
    using a by (auto simp: length_update_alist distinct_update)
qed

lemma reachable_registry_ok: "reachable s \<Longrightarrow> registry_ok s"
proof (induction rule: reachable.induct)
  case reach_init
  then show ?case by (simp add: registry_ok_def timers_of_def init_state_def)
next
  case (reach_handle_time s user_id message_text uuid8 now_end now_created)
  then show ?case by (simp add: registry_ok_handle_time)
next
  case (reach_cancel_timer s user_id)
  then show ?case by (simp add: registry_ok_def cancel_timer_timers)
next
  case (reach_cancel_all_button s user_id)
  then show ?case by (simp add: registry_ok_def button_cancel_all_eq cancel_timer_timers)
next
  case (reach_remove_timer s user_id timer_id)
  then show ?case
    by (auto simp: registry_ok_def remove_timer_timers distinct_delete length_delete_bound)
next
  case (reach_format_timer_list s user_id page items_per_page now)
  then show ?case by (simp add: registry_ok_def format_timer_list_snd get_user_timers_snd_timers)
next
  case (reach_get_timer_count s user_id)
  then show ?case by (simp add: registry_ok_def get_timer_count_snd get_user_timers_snd_timers)
next
  case (reach_status_timer s user_id)
  then show ?case by (simp add: registry_ok_def get_user_timers_snd_timers)
next
  case (reach_dispatch_job s j)
  then show ?case by (simp add: registry_ok_def dispatch_job_def timers_of_def)
next
  case (reach_run_callback s j)
  have "timers_of (s\<lparr>dispatched := remove1 j (dispatched s)\<rparr>) = timers_of s"
    by (rule timers_of_cong) simp
  with reach_run_callback show ?case
    by (auto simp: registry_ok_def run_callback_def timer_callback_timers distinct_delete length_delete_bound)
qed

subsection \<open>The limit, cancelling all timers, and timer ids\<close>

lemma reachable_start_timers: "reachable s \<Longrightarrow> reachable (start_timers u ids s)"
  by (induction ids arbitrary: s) (auto intro: reach_handle_time)

lemma full_state_keys: "map fst (timers_of full_state 1) = ten_ids"
  by (simp add: full_state_def ten_ids_def handle_time_def registry_defs parse_defs Let_def
      timers_of_def)

lemma three_state_keys: "map fst (timers_of three_state 1) = [''00000000'', ''00000001'', ''00000002'']"
  by (simp add: three_state_def ten_ids_def handle_time_def registry_defs parse_defs Let_def
      timers_of_def)

lemma seven_state_timers: "map (\<lambda>p. (fst p, created_at (snd p))) (timers_of seven_state 1) =
  [(''00000000'', 6), (''00000001'', 5), (''00000002'', 4), (''00000003'', 3), (''00000004'', 2),
   (''00000005'', 1), (''00000006'', 0)]"
  by (simp add: seven_state_def ten_ids_def handle_time_def registry_defs parse_defs Let_def
      timers_of_def)

text \<open>
  C5. When the count of a user is \<^const>\<open>MAX_TIMERS_PER_USER\<close>, \<^verbatim>\<open>handle_time\<close> answers
  that the limit is reached and returns the state it was given: no timer is added, no
  job is scheduled, the count stays. In every reachable state the count of every user
  is at most \<^const>\<open>MAX_TIMERS_PER_USER\<close>.
\<close>

theorem capacity_limit:
  "(fst (get_timer_count u s) = MAX_TIMERS_PER_USER \<longrightarrow>
      fst (handle_time u msg uuid8 n1 n2 s) = MaxTimersReached MAX_TIMERS_PER_USER MAX_TIMERS_PER_USER \<and>
      snd (handle_time u msg uuid8 n1 n2 s) = s) \<and>
   (reachable s \<longrightarrow> fst (get_timer_count u s) \<le> MAX_TIMERS_PER_USER)"
proof -
  have "reachable s \<Longrightarrow> length (timers_of s u) \<le> MAX_TIMERS_PER_USER"
    using reachable_registry_ok [of s] by (simp add: registry_ok_def)
  then show ?thesis by (simp add: get_timer_count_fst handle_time_at_capacity)
qed

theorem capacity_limit_witness:
  "fst (get_timer_count 1 full_state) = MAX_TIMERS_PER_USER \<and>
   fst (handle_time 1 ''30'' ''0000000a'' 0 0 full_state) = MaxTimersReached 10 10 \<and>
   snd (handle_time 1 ''30'' ''0000000a'' 0 0 full_state) = full_state \<and>
   reachable full_state"
proof -
  have c: "fst (get_timer_count 1 full_state) = MAX_TIMERS_PER_USER"
    using arg_cong [OF full_state_keys, of length]
    by (simp add: get_timer_count_fst ten_ids_def MAX_TIMERS_PER_USER_def)
  have r: "reachable full_state"
    unfolding full_state_def by (rule reachable_start_timers [OF reach_init])
  from capacity_limit [of 1 full_state "''30''" "''0000000a''" 0 0] c r
  show ?thesis by (simp add: MAX_TIMERS_PER_USER_def)
qed

text \<open>
  C7. \<^verbatim>\<open>cancel_timer\<close> and the cancel-all button copy the user's dictionary, call
  \<^verbatim>\<open>remove_timer\<close> for each id of the copy and report the number of calls that returned
  \<^verbatim>\<open>True\<close>: for a user with \<open>n\<close> timers that number is \<open>n\<close>, and the count
  afterwards is 0.
\<close>

theorem cancel_all_removes_all:
  assumes "distinct (map fst (timers_of s u))"
  shows "removed_count (fst (cancel_timer u s)) = length (timers_of s u) \<and>
         fst (get_timer_count u (snd (cancel_timer u s))) = 0 \<and>
         removed_count (fst (button_callback_cancel_all_timers u s)) = length (timers_of s u) \<and>
         fst (get_timer_count u (snd (button_callback_cancel_all_timers u s))) = 0"
  using assms
  by (simp add: button_cancel_all_eq cancel_timer_count get_timer_count_fst cancel_timer_timers)

theorem cancel_all_removes_all_witness:
  "distinct (map fst (timers_of three_state 1)) \<and>
   length (timers_of three_state 1) = 3 \<and>
   removed_count (fst (cancel_timer 1 three_state)) = 3 \<and>
   fst (get_timer_count 1 (snd (cancel_timer 1 three_state))) = 0 \<and>
   removed_count (fst (button_callback_cancel_all_timers 1 three_state)) = 3 \<and>
   fst (get_timer_count 1 (snd (button_callback_cancel_all_timers 1 three_state))) = 0"
proof -
  have d: "distinct (map fst (timers_of three_state 1))" by (simp add: three_state_keys)
  have l: "length (timers_of three_state 1) = 3"
    using arg_cong [OF three_state_keys, of length] by simp
  from cancel_all_removes_all [OF d] d l show ?thesis by simp
qed

text \<open>
  C9, as stated, fails: \<^verbatim>\<open>handle_time\<close> takes the first eight characters of a fresh
  UUID and never looks whether the user already has a timer of that id. When it
  collides, the call succeeds, the old timer is overwritten, the count stays 1, and the
  job of the old timer stays scheduled.
\<close>

theorem handle_time_overwrites_on_collision:
  "''a1b2c3d4'' \<in> fst ` set (timers_of started_state 1) \<and>
   fst (handle_time 1 ''30'' ''a1b2c3d4'' 7 8 started_state) =
     TimerStarted ''a1b2c3d4'' 0 30 1800000007 1 \<and>
   fst (get_timer_count 1 started_state) = 1 \<and>
   fst (get_timer_count 1 (snd (handle_time 1 ''30'' ''a1b2c3d4'' 7 8 started_state))) = 1 \<and>
   timer_of started_state 1 ''a1b2c3d4'' =
     Some \<lparr>description = Description 1 30 5400000000, end_time = 5400000000,
           job = Some job0, created_at = 0\<rparr> \<and>
   timer_of (snd (handle_time 1 ''30'' ''a1b2c3d4'' 7 8 started_state)) 1 ''a1b2c3d4'' =
     Some \<lparr>description = Description 0 30 1800000007, end_time = 1800000007,
           job = Some \<lparr>job_id = 1, job_user_id = 1, job_delay = 1800,
                        job_timer_id = ''a1b2c3d4'',
                        job_description = Description 0 30 1800000007\<rparr>,
           created_at = 8\<rparr> \<and>
   job0 \<in> set (job_queue (snd (handle_time 1 ''30'' ''a1b2c3d4'' 7 8 started_state)))"
  unfolding started_state_eq
  by (simp add: handle_time_def registry_defs parse_defs Let_def timers_of_def timer_of_def)

text \<open>
  C9, amended. A call of \<^verbatim>\<open>handle_time\<close> that starts a timer under an id the user does
  not have yet overwrites nothing: every timer the user had is still there, unchanged,
  the new id is present, and the count is one more than before.
\<close>

theorem handle_time_fresh_id:
  assumes "fst (handle_time u msg uuid8 n1 n2 s) = TimerStarted tid h m e c"
    and "uuid8 \<notin> fst ` set (timers_of s u)"
  shows "tid = uuid8 \<and>
         c = length (timers_of s u) + 1 \<and>
         fst (get_timer_count u (snd (handle_time u msg uuid8 n1 n2 s))) =
           fst (get_timer_count u s) + 1 \<and>
         timer_of (snd (handle_time u msg uuid8 n1 n2 s)) u uuid8 \<noteq> None \<and>
         (\<forall>t info. timer_of s u t = Some info \<longrightarrow>
            timer_of (snd (handle_time u msg uuid8 n1 n2 s)) u t = Some info)"
proof (cases "MAX_TIMERS_PER_USER \<le> length (timers_of s u)")
  case True
  then show ?thesis using assms(1) by (simp add: handle_time_at_capacity)
next
  case False
  then have lt: "length (timers_of s u) < MAX_TIMERS_PER_USER" by simp
  show ?thesis
  proof (cases "validate_time_format (py_strip msg)")
    case None
    then show ?thesis using lt assms(1) by (simp add: handle_time_invalid)
  next
    case (Some hm)
    obtain h' m' where hm: "hm = (h', m')" by (cases hm)
    from handle_time_started [OF lt, of msg h' m' uuid8 n1 n2] Some hm
    obtain e' info s' where r: "handle_time u msg uuid8 n1 n2 s =
        (TimerStarted uuid8 h' m' e' (length (timers_of s' u)), s')"
      and t: "timers_of s' = (timers_of s)(u := AList.update uuid8 info (timers_of s u))"
      by auto
    from assms(2) have absent: "map_of (timers_of s u) uuid8 = None"
      by (simp add: map_of_eq_None_iff)
    have keep: "timer_of s' u t = Some i" if "timer_of s u t = Some i" for t i
      using that absent by (auto simp: timer_of_def t update_conv')
    show ?thesis using r t assms keep
      by (auto simp: get_timer_count_fst length_update_alist timer_of_def update_conv')
  qed
qed

theorem handle_time_fresh_id_witness:
  "fst (handle_time 1 ''30'' ''0000000c'' 7 8 started_state) =
     TimerStarted ''0000000c'' 0 30 1800000007 2 \<and>
   ''0000000c'' \<notin> fst ` set (timers_of started_state 1) \<and>
   fst (get_timer_count 1 (snd (handle_time 1 ''30'' ''0000000c'' 7 8 started_state))) =
     fst (get_timer_count 1 started_state) + 1 \<and>
   timer_of (snd (handle_time 1 ''30'' ''0000000c'' 7 8 started_state)) 1 ''a1b2c3d4'' =
     Some \<lparr>description = Description 1 30 5400000000, end_time = 5400000000,
           job = Some job0, created_at = 0\<rparr>"
proof -
  have a: "fst (handle_time 1 ''30'' ''0000000c'' 7 8 started_state) =
     TimerStarted ''0000000c'' 0 30 1800000007 2"
    unfolding started_state_eq
    by (simp add: handle_time_def registry_defs parse_defs Let_def)
  have b: "''0000000c'' \<notin> fst ` set (timers_of started_state 1)"
    unfolding started_state_eq by (simp add: timers_of_def)
  have c: "timer_of started_state 1 ''a1b2c3d4'' =
     Some \<lparr>description = Description 1 30 5400000000, end_time = 5400000000,
           job = Some job0, created_at = 0\<rparr>"
    unfolding started_state_eq by (simp add: timers_of_def timer_of_def)
  from handle_time_fresh_id [OF a b] a b c show ?thesis by simp
qed

subsection \<open>remove\_timer, the found and the not found case\<close>

lemma remove_timer_not_found:
  assumes "timer_of s u t = None"
  shows "\<not> fst (remove_timer u t s) \<and>
         timers_of (snd (remove_timer u t s)) = timers_of s \<and>
         job_queue (snd (remove_timer u t s)) = job_queue s \<and>
         dispatched (snd (remove_timer u t s)) = dispatched s \<and>
         outbox (snd (remove_timer u t s)) = outbox s \<and>
         (active_timers s u \<noteq> None \<longrightarrow> snd (remove_timer u t s) = s)"
  using assms
  by (auto simp: remove_timer_fst remove_timer_timers fun_eq_iff timer_of_def delete_absent
      remove_timer_rest)
     (auto simp: remove_timer_def get_user_timers_def timers_of_def split: option.splits)

lemma remove_timer_found:
  assumes "timer_of s u t = Some info"
  shows "fst (remove_timer u t s) \<and>
         timer_of (snd (remove_timer u t s)) u t = None \<and>
         timers_of (snd (remove_timer u t s)) u = AList.delete t (timers_of s u) \<and>
         (\<forall>j. job info = Some j \<longrightarrow> j \<notin> set (job_queue (snd (remove_timer u t s)))) \<and>
         (AList.delete t (timers_of s u) = [] \<longrightarrow> active_timers (snd (remove_timer u t s)) u = None)"
  using assms
  by (auto simp: remove_timer_fst remove_timer_timers timer_of_def delete_conv')
     (auto simp: remove_timer_def get_user_timers_def timers_of_def schedule_removal_def Let_def
       split: option.splits if_splits)

lemma remove_timer_twice:
  assumes "timer_of s u t \<noteq> None"
  shows "fst (remove_timer u t s) \<and> \<not> fst (remove_timer u t (snd (remove_timer u t s)))"
  using assms by (simp add: remove_timer_fst timer_of_def remove_timer_timers delete_conv')

subsection \<open>The list view\<close>

lemma py_slice_nonneg:
  assumes "0 \<le> i" "0 \<le> k"
  shows "py_slice xs i (i + k) = take (nat k) (drop (nat i) xs)"
proof (cases "i \<le> int (length xs)")
  case True
  then have "py_slice xs i (i + k) =
      take (nat (min (i + k) (int (length xs)) - i)) (drop (nat i) xs)"
    using assms by (simp add: py_slice_def Let_def min_def)
  also have "\<dots> = take (nat k) (drop (nat i) xs)"
    using assms True by (cases "i + k \<le> int (length xs)") (simp_all add: min_def)
  finally show ?thesis .
next
  case False
  then show ?thesis using assms by (simp add: py_slice_def Let_def min_def)
qed

lemma list_ex_button_rows: "list_ex (list_ex P) (button_rows bs) = list_ex P bs"
  by (induction bs rule: button_rows.induct) auto

lemma no_back_in_cancel_buttons:
  "\<not> list_ex (\<lambda>b. case b of BtnBack p \<Rightarrow> True | _ \<Rightarrow> False)
       (map (\<lambda>p. BtnCancelTimer (f p)) xs)"
  by (induction xs) auto

lemma no_forward_in_cancel_buttons:
  "\<not> list_ex (\<lambda>b. case b of BtnForward p \<Rightarrow> True | _ \<Rightarrow> False)
       (map (\<lambda>p. BtnCancelTimer (f p)) xs)"
  by (induction xs) auto

lemma map_enumerate_snd: "map (\<lambda>p. h (snd p)) (enumerate n xs) = map h xs"
proof -
  have "map (\<lambda>p. h (snd p)) (enumerate n xs) = map (h \<circ> snd) (enumerate n xs)"
    by (simp add: comp_def)
  also have "\<dots> = map h (map snd (enumerate n xs))" by (simp only: map_map)
  also have "\<dots> = map h xs" by (simp only: map_snd_enumerate)
  finally show ?thesis .
qed

lemma map_enumerate_fst: "map (\<lambda>p. g (fst p)) (enumerate n xs) = map g [n..<n + length xs]"
proof -
  have "map (\<lambda>p. g (fst p)) (enumerate n xs) = map (g \<circ> fst) (enumerate n xs)"
    by (simp add: comp_def)
  also have "\<dots> = map g (map fst (enumerate n xs))" by (simp only: map_map)
  also have "\<dots> = map g [n..<n + length xs]" by (simp only: map_fst_enumerate)
  finally show ?thesis .
qed

lemma format_timer_list_empty:
  assumes "timers_of s u = []"
  shows "fst (format_timer_list u page ipp now s) = (NoActiveTimers, [[BtnCreateTimer]])"
  using assms by (simp add: format_timer_list_def split_def get_user_timers_fst)

lemma format_timer_list_rows:
  assumes "timers_of s u \<noteq> []" "0 \<le> page"
  shows "view_rows (fst (format_timer_list u page 5 now s)) =
     map (\<lambda>(k, (timer_id, info)).
            \<lparr>row_number = page * 5 + 1 + int k, row_timer_id = timer_id,
             row_description = description info,
             row_status =
               (if end_time info > now k
                then Remaining (timedelta_seconds (end_time info - now k) div 60)
                       (timedelta_seconds (end_time info - now k) mod 60)
                else ShouldHaveFinished)\<rparr>)
         (enumerate 0 (page_slice s u page))"
proof -
  have ps: "py_slice xs (page * 5) (page * 5 + 5) = take 5 (drop (nat (page * 5)) xs)"
    for xs :: user_timers
    using assms(2) py_slice_nonneg [of "page * 5" 5 xs] by simp
  show ?thesis using assms(1)
    by (simp add: format_timer_list_def split_def get_user_timers_fst Let_def view_rows_def
        page_slice_def ps cong: if_cong)
qed

lemma format_timer_list_has_prev:
  assumes "timers_of s u \<noteq> []"
  shows "has_prev (fst (format_timer_list u page ipp now s)) = (page > 0)"
  using assms
  by (simp add: format_timer_list_def split_def get_user_timers_fst Let_def has_prev_def
      list_ex_button_rows no_back_in_cancel_buttons)

lemma format_timer_list_has_next:
  assumes "timers_of s u \<noteq> []"
  shows "has_next (fst (format_timer_list u page ipp now s)) =
           (page * ipp + ipp < int (length (timers_of s u)))"
  using assms
  by (simp add: format_timer_list_def split_def get_user_timers_fst Let_def has_next_def
      list_ex_button_rows no_forward_in_cancel_buttons)

text \<open>
  C8, as stated, fails for a user without timers: the function returns the text for
  "no active timers" and a keyboard with the create button alone, whatever the page, so
  on page 1 there is no back button although \<open>page > 0\<close>.
\<close>

theorem format_timer_list_no_timers_page_1:
  "(0::int) < 1 \<and> \<not> has_prev (fst (format_timer_list 1 1 5 (\<lambda>k. 0) init_state))"
  by (simp add: format_timer_list_def registry_defs has_prev_def)

text \<open>
  A negative page is not an empty page either: \<^verbatim>\<open>sorted_timers[-10:-5]\<close> counts from
  the end, and with seven timers it holds two rows.
\<close>

lemma format_timer_list_negative_page:
  "length (view_rows (fst (format_timer_list 1 (- 2) 5 (\<lambda>k. 0) seven_state))) = 2"
  by (simp add: format_timer_list_def view_rows_def py_slice_def seven_state_def ten_ids_def
      handle_time_def registry_defs parse_defs Let_def)

text \<open>
  C8, amended. For a page that is not negative and a user with at least one timer, the
  rows are those of the slice \<open>[page * 5, page * 5 + 5)\<close> of the timers in the order of
  \<^verbatim>\<open>created_at\<close>, numbered from \<open>page * 5 + 1\<close>; a page beyond the end has no rows;
  the back button is there exactly when \<open>page > 0\<close> and the forward button exactly when
  \<open>(page + 1) * 5\<close> is less than the number of timers; seven timers on page 1 give two
  rows, a back button and no forward button. For a user without timers there are no
  rows and neither button.
\<close>

theorem format_timer_list_page:
  assumes "0 \<le> page"
  shows
   "(timers_of s u \<noteq> [] \<longrightarrow>
       map (\<lambda>r. (row_timer_id r, row_description r))
           (view_rows (fst (format_timer_list u page 5 now s))) =
         map (\<lambda>(timer_id, info). (timer_id, description info)) (page_slice s u page) \<and>
       map row_number (view_rows (fst (format_timer_list u page 5 now s))) =
         map (\<lambda>k. page * 5 + 1 + int k) [0..<length (page_slice s u page)] \<and>
       has_prev (fst (format_timer_list u page 5 now s)) = (page > 0) \<and>
       has_next (fst (format_timer_list u page 5 now s)) =
         ((page + 1) * 5 < int (length (timers_of s u))) \<and>
       (int (length (timers_of s u)) \<le> page * 5 \<longrightarrow>
          view_rows (fst (format_timer_list u page 5 now s)) = []) \<and>
       (length (timers_of s u) = 7 \<and> page = 1 \<longrightarrow>
          length (view_rows (fst (format_timer_list u page 5 now s))) = 2 \<and>
          has_prev (fst (format_timer_list u page 5 now s)) \<and>
          \<not> has_next (fst (format_timer_list u page 5 now s)))) \<and>
    (timers_of s u = [] \<longrightarrow>
       view_rows (fst (format_timer_list u page 5 now s)) = [] \<and>
       \<not> has_prev (fst (format_timer_list u page 5 now s)) \<and>
       \<not> has_next (fst (format_timer_list u page 5 now s)))"
proof (cases "timers_of s u = []")
  case True
  then show ?thesis
    by (simp add: format_timer_list_empty view_rows_def has_prev_def has_next_def)
next
  case False
  note rows = format_timer_list_rows [OF False assms, of now]
  have 1: "map (\<lambda>r. (row_timer_id r, row_description r))
           (view_rows (fst (format_timer_list u page 5 now s))) =
         map (\<lambda>(timer_id, info). (timer_id, description info)) (page_slice s u page)"
    unfolding rows
    using map_enumerate_snd [of "\<lambda>x. (fst x, description (snd x))" 0 "page_slice s u page"]
    by (simp add: split_def comp_def)
  have 2: "map row_number (view_rows (fst (format_timer_list u page 5 now s))) =
         map (\<lambda>k. page * 5 + 1 + int k) [0..<length (page_slice s u page)]"
    unfolding rows
    using map_enumerate_fst [of "\<lambda>k. page * 5 + 1 + int k" 0 "page_slice s u page"]
    by (simp add: split_def comp_def)
  have len: "length (view_rows (fst (format_timer_list u page 5 now s))) =
        min 5 (length (timers_of s u) - nat (page * 5))"
    unfolding rows by (simp add: page_slice_def min.commute)
  have 5: "view_rows (fst (format_timer_list u page 5 now s)) = []"
    if "int (length (timers_of s u)) \<le> page * 5"
    using that len by (simp add: nat_le_iff)
  have p: "has_prev (fst (format_timer_list u page 5 now s)) = (page > 0)"
    by (rule format_timer_list_has_prev [OF False])
  have n: "has_next (fst (format_timer_list u page 5 now s)) =
         ((page + 1) * 5 < int (length (timers_of s u)))"
    by (simp add: format_timer_list_has_next [OF False] algebra_simps)
  have 6: "length (view_rows (fst (format_timer_list u page 5 now s))) = 2 \<and>
           has_prev (fst (format_timer_list u page 5 now s)) \<and>
           \<not> has_next (fst (format_timer_list u page 5 now s))"
    if "length (timers_of s u) = 7 \<and> page = 1"
    using that len p n by simp
  show ?thesis using False 1 2 5 6 p n by blast
qed

lemma seven_state_page_1: "map fst (page_slice seven_state 1 1) = [''00000001'', ''00000000'']"
  by (simp add: page_slice_def seven_state_def ten_ids_def handle_time_def registry_defs
      parse_defs Let_def timers_of_def)

theorem format_timer_list_page_witness:
  "(0::int) \<le> 1 \<and> length (timers_of seven_state 1) = 7 \<and>
   map row_timer_id (view_rows (fst (format_timer_list 1 1 5 (\<lambda>k. 0) seven_state))) =
     [''00000001'', ''00000000''] \<and>
   map row_number (view_rows (fst (format_timer_list 1 1 5 (\<lambda>k. 0) seven_state))) = [6, 7] \<and>
   length (view_rows (fst (format_timer_list 1 1 5 (\<lambda>k. 0) seven_state))) = 2 \<and>
   has_prev (fst (format_timer_list 1 1 5 (\<lambda>k. 0) seven_state)) \<and>
   \<not> has_next (fst (format_timer_list 1 1 5 (\<lambda>k. 0) seven_state))"
proof -
  let ?v = "fst (format_timer_list 1 1 5 (\<lambda>k. 0) seven_state)"
  have l: "length (timers_of seven_state 1) = 7"
    using arg_cong [OF seven_state_timers, of length] by simp
  then have ne: "timers_of seven_state 1 \<noteq> []" by auto
  have z: "(0::int) \<le> 1" by simp
  note t = format_timer_list_page [OF z, of seven_state 1 "\<lambda>k. 0"]
  from t ne have a: "map (\<lambda>r. (row_timer_id r, row_description r)) (view_rows ?v) =
         map (\<lambda>(timer_id, info). (timer_id, description info)) (page_slice seven_state 1 1)"
    by blast
  have "map row_timer_id (view_rows ?v) =
        map fst (map (\<lambda>r. (row_timer_id r, row_description r)) (view_rows ?v))"
    by (simp add: comp_def)
  also have "\<dots> = map fst (page_slice seven_state 1 1)"
    unfolding a by (simp add: comp_def split_def)
  finally have ids: "map row_timer_id (view_rows ?v) = [''00000001'', ''00000000'']"
    by (simp add: seven_state_page_1)
  from t ne l have b: "length (view_rows ?v) = 2 \<and> has_prev ?v \<and> \<not> has_next ?v"
    by blast
  from t ne have "map row_number (view_rows ?v) =
      map (\<lambda>k. 1 * 5 + 1 + int k) [0..<length (page_slice seven_state 1 1)]"
    by blast
  moreover have "length (page_slice seven_state 1 1) = 2"
    using arg_cong [OF seven_state_page_1, of length] by simp
  ultimately have nums: "map row_number (view_rows ?v) = [6, 7]"
    by (simp add: upt_rec)
  from z l ids nums b show ?thesis by blast
qed

end
